theory Spec2Isabelle
  imports Complex_Main "HOL-Library.Sublist"
begin

section \<open>JavaScript completions\<close>

text \<open>
  A JavaScript computation either returns a value or throws. The exceptions that the
  modelled code can meet are the built-in error kinds below and a failed network call;
  a computation of type \<open>exn + 'a\<close> returns \<open>Inr v\<close> or throws \<open>Inl e\<close>.
\<close>

datatype exn = TypeError | SyntaxError | URIError | FetchError

section \<open>src/lib/network-utils.ts\<close>

subsection \<open>getBestAccessURL (lines 155-192)\<close>

text \<open>
  The function reads two pieces of ambient state. \<open>typeof window === 'undefined'\<close>
  tells the server from the browser; on the server it reads \<open>process.env.SITE_BASE\<close>
  (a string or undefined), in the browser it reads \<open>window.location.origin\<close> (a
  string). The two cases are the two constructors of \<open>runtime\<close>.
\<close>

datatype runtime =
    Server "string option"
  | Client string

text \<open>\<open>if (v)\<close> for \<open>v: string | undefined\<close>: undefined and the empty string are falsy.\<close>

fun truthy_string :: "string option \<Rightarrow> bool" where
  "truthy_string None = False"
| "truthy_string (Some s) = (s \<noteq> [])"

text \<open>
  Lines 161-176: the block guarded by \<open>typeof window === 'undefined'\<close>. The result
  is \<open>Some u\<close> when the block returns \<open>u\<close> and \<open>None\<close> when control falls through.
\<close>

definition server_block :: "runtime \<Rightarrow> string option \<Rightarrow> string option" where
  "server_block rt dbSiteBase =
     (case rt of
        Server siteBase \<Rightarrow>
          if truthy_string siteBase then siteBase
          else if truthy_string dbSiteBase then dbSiteBase
          else None
      | Client origin \<Rightarrow> None)"

text \<open>
  The whole function. The parameter \<open>port\<close> is declared and never read, so its type
  is left open. The \<open>console.log\<close> calls have no effect on the result.
\<close>

definition getBestAccessURL ::
  "runtime \<Rightarrow> string option \<Rightarrow> 'port option \<Rightarrow> string option \<Rightarrow> exn + string" where
  "getBestAccessURL rt currentOrigin port dbSiteBase =
     (case server_block rt dbSiteBase of
        Some u \<Rightarrow> Inr u
      | None \<Rightarrow>
          (case currentOrigin of
             Some c \<Rightarrow>
               if c \<noteq> [] then Inr c
               else (case rt of
                       Client origin \<Rightarrow> Inr origin
                     | Server siteBase \<Rightarrow> Inr ''http://localhost:3000'')
           | None \<Rightarrow>
               (case rt of
                  Client origin \<Rightarrow> Inr origin
                | Server siteBase \<Rightarrow> Inr ''http://localhost:3000'')))"

subsection \<open>isLocalNetwork (lines 197-211)\<close>

text \<open>
  The three regular expressions of \<open>localPatterns\<close>, each as the predicate that
  \<open>pattern.test(hostname)\<close> computes. All three are anchored at the start only.
\<close>

definition pattern_192_168 :: "string \<Rightarrow> bool" where
  "pattern_192_168 h = prefix ''192.168.'' h"

definition pattern_10 :: "string \<Rightarrow> bool" where
  "pattern_10 h = prefix ''10.'' h"

text \<open>The group \<open>(1[6-9]|2[0-9]|3[0-1])\<close> on the two characters it consumes.\<close>

definition group_16_31 :: "char \<Rightarrow> char \<Rightarrow> bool" where
  "group_16_31 a b =
     ((a = CHR ''1'' \<and> b \<in> set ''6789'')
      \<or> (a = CHR ''2'' \<and> b \<in> set ''0123456789'')
      \<or> (a = CHR ''3'' \<and> b \<in> set ''01''))"

fun pattern_172 :: "string \<Rightarrow> bool" where
  "pattern_172 (c1 # c2 # c3 # c4 # a # b # c7 # rest) =
     (c1 = CHR ''1'' \<and> c2 = CHR ''7'' \<and> c3 = CHR ''2'' \<and> c4 = CHR ''.''
      \<and> group_16_31 a b \<and> c7 = CHR ''.'')"
| "pattern_172 h = False"

definition localPatterns :: "(string \<Rightarrow> bool) list" where
  "localPatterns = [pattern_192_168, pattern_10, pattern_172]"

definition isLocalNetwork :: "string \<Rightarrow> bool" where
  "isLocalNetwork hostname =
     (if hostname = ''localhost'' \<or> hostname = ''127.0.0.1'' then True
      else list_ex (\<lambda>pattern. pattern hostname) localPatterns)"

text \<open>
  Dotted-quad notation, to state what the classifier does on IPv4 addresses:
  \<open>dec n\<close> is the decimal numeral of \<open>n\<close> and \<open>ipv4 a b c d\<close> is \<open>a.b.c.d\<close>.
\<close>

definition digit_char :: "nat \<Rightarrow> char" where
  "digit_char d = ''0123456789'' ! d"

fun dec :: "nat \<Rightarrow> string" where
  "dec n = (if n < 10 then [digit_char n] else dec (n div 10) @ [digit_char (n mod 10)])"

declare dec.simps [simp del]

definition ipv4 :: "nat \<Rightarrow> nat \<Rightarrow> nat \<Rightarrow> nat \<Rightarrow> string" where
  "ipv4 a b c d = dec a @ ''.'' @ dec b @ ''.'' @ dec c @ ''.'' @ dec d"


section \<open>JavaScript values\<close>

text \<open>
  The route handler declares its data as \<open>any\<close>: what it works on is whatever JSON the
  subscription server sent. \<open>jsval\<close> holds the JSON values and \<open>undefined\<close>, the
  result of reading a property that is not there. A number is given by its value;
  number tokens that overflow to an infinity are not represented, they behave
  like any other number different from 0 and 1. \<open>JObj\<close> lists the members
  of an object in the order of the JSON text.
\<close>

datatype jsval =
    JUndefined
  | JNull
  | JBool bool
  | JNum rat
  | JStr string
  | JArr "jsval list"
  | JObj "(string \<times> jsval) list"

text \<open>ToBoolean, the test behind \<open>if (v)\<close>, \<open>!v\<close>, \<open>a || b\<close> and \<open>a && b\<close>.\<close>

fun truthy :: "jsval \<Rightarrow> bool" where
  "truthy JUndefined = False"
| "truthy JNull = False"
| "truthy (JBool b) = b"
| "truthy (JNum n) = (n \<noteq> 0)"
| "truthy (JStr s) = (s \<noteq> [])"
| "truthy (JArr xs) = True"
| "truthy (JObj ps) = True"

text \<open>\<open>a || b\<close> where \<open>b\<close> is a literal.\<close>

definition or_else :: "jsval \<Rightarrow> jsval \<Rightarrow> jsval" where
  "or_else a b = (if truthy a then a else b)"

text \<open>Sequencing of computations that may throw.\<close>

fun andThen :: "exn + 'a \<Rightarrow> ('a \<Rightarrow> exn + 'b) \<Rightarrow> exn + 'b" where
  "andThen (Inl e) f = Inl e"
| "andThen (Inr v) f = f v"

text \<open>
  \<open>v.k\<close> for the property names the modelled code reads (url, sites, lives, type,
  api, name, key, ext, epg, ua). Reading from \<open>undefined\<close> or \<open>null\<close> throws a
  TypeError. An object yields its own member of that name, the last one when the JSON
  text repeats the name, and \<open>undefined\<close> when it has none. None of these names is a
  property of the Boolean, Number, String, Array or Object prototypes, so every other
  value yields \<open>undefined\<close>.
\<close>

fun getprop :: "jsval \<Rightarrow> string \<Rightarrow> exn + jsval" where
  "getprop JUndefined k = Inl TypeError"
| "getprop JNull k = Inl TypeError"
| "getprop (JObj ps) k = Inr (case map_of (rev ps) k of None \<Rightarrow> JUndefined | Some v \<Rightarrow> v)"
| "getprop v k = Inr JUndefined"

text \<open>
  The receiver of \<open>.filter(...)\<close> and \<open>.map(...)\<close>. Only an array has these methods; on
  any other value the property is undefined or, for an object with a member of that
  name, a JSON value, and calling it throws a TypeError.
\<close>

fun array_receiver :: "jsval \<Rightarrow> exn + jsval list" where
  "array_receiver (JArr xs) = Inr xs"
| "array_receiver v = Inl TypeError"

text \<open>
  \<open>Array.prototype.filter\<close> and \<open>Array.prototype.map\<close> with a callback that may throw:
  the elements are visited in order and the first exception ends the call.
\<close>

fun Array_filter :: "('a \<Rightarrow> exn + bool) \<Rightarrow> 'a list \<Rightarrow> exn + 'a list" where
  "Array_filter f [] = Inr []"
| "Array_filter f (x # xs) =
     andThen (f x) (\<lambda>keep.
     andThen (Array_filter f xs) (\<lambda>ys.
     Inr (if keep then x # ys else ys)))"

fun Array_map :: "('a \<Rightarrow> exn + 'b) \<Rightarrow> 'a list \<Rightarrow> exn + 'b list" where
  "Array_map f [] = Inr []"
| "Array_map f (x # xs) =
     andThen (f x) (\<lambda>y.
     andThen (Array_map f xs) (\<lambda>ys.
     Inr (y # ys)))"

text \<open>\<open>String.prototype.includes\<close>: the argument occurs as a contiguous run.\<close>

fun String_includes :: "string \<Rightarrow> string \<Rightarrow> bool" where
  "String_includes [] needle = (needle = [])"
| "String_includes (c # cs) needle = (prefix needle (c # cs) \<or> String_includes cs needle)"

text \<open>
  \<open>v.includes(needle)\<close> for a string literal \<open>needle\<close>. A string searches itself. An
  array has a method of the same name, which looks for an element equal to the
  argument. No other value has a callable \<open>includes\<close>: the call throws a TypeError.
\<close>

fun method_includes :: "jsval \<Rightarrow> string \<Rightarrow> exn + bool" where
  "method_includes (JStr s) needle = Inr (String_includes s needle)"
| "method_includes (JArr xs) needle = Inr (JStr needle \<in> set xs)"
| "method_includes v needle = Inl TypeError"

section \<open>encodeURIComponent and decodeURIComponent\<close>

text \<open>
  A string is the list of the bytes of its UTF-8 encoding. Both functions are the
  ones of ECMA-262 (Encode and Decode with the sets of the two \<open>...Component\<close>
  functions), on that representation.
\<close>

definition hex_digit :: "nat \<Rightarrow> char" where
  "hex_digit d = ''0123456789ABCDEF'' ! d"

definition is_alpha :: "char \<Rightarrow> bool" where
  "is_alpha c = (let n = (of_char c :: nat) in (65 \<le> n \<and> n \<le> 90) \<or> (97 \<le> n \<and> n \<le> 122))"

definition is_digit :: "char \<Rightarrow> bool" where
  "is_digit c = (let n = (of_char c :: nat) in 48 \<le> n \<and> n \<le> 57)"

text \<open>The characters \<open>encodeURIComponent\<close> leaves alone: letters, digits and \<open>-_.!~*'()\<close>.\<close>

definition uri_unreserved :: "char \<Rightarrow> bool" where
  "uri_unreserved c = (is_alpha c \<or> is_digit c \<or> c \<in> set ''-_.!~*()'' \<or> c = CHR 0x27)"

definition encode_byte :: "char \<Rightarrow> string" where
  "encode_byte c =
     (if uri_unreserved c then [c]
      else (let n = (of_char c :: nat) in [CHR ''%'', hex_digit (n div 16), hex_digit (n mod 16)]))"

definition encodeURIComponent :: "string \<Rightarrow> string" where
  "encodeURIComponent s = concat (map encode_byte s)"

definition hex_value :: "char \<Rightarrow> nat option" where
  "hex_value c =
     (let n = (of_char c :: nat) in
      if 48 \<le> n \<and> n \<le> 57 then Some (n - 48)
      else if 65 \<le> n \<and> n \<le> 70 then Some (n - 55)
      else if 97 \<le> n \<and> n \<le> 102 then Some (n - 87)
      else None)"

text \<open>The octet that the two characters after a \<open>%\<close> denote, if they are hex digits.\<close>

definition hex_octet :: "char \<Rightarrow> char \<Rightarrow> nat option" where
  "hex_octet h1 h2 =
     (case hex_value h1 of
        None \<Rightarrow> None
      | Some a \<Rightarrow> (case hex_value h2 of None \<Rightarrow> None | Some b \<Rightarrow> Some (16 * a + b)))"

text \<open>
  The number of octets that a leading octet of 128 or more announces (its leading
  one bits), \<open>None\<close> where Decode throws at once: one leading one bit, or more than four.
\<close>

definition utf8_length :: "nat \<Rightarrow> nat option" where
  "utf8_length b =
     (if b < 192 then None
      else if b < 224 then Some 2
      else if b < 240 then Some 3
      else if b < 248 then Some 4
      else None)"

text \<open>The well-formed UTF-8 sequences of two, three and four octets.\<close>

definition continuation :: "nat \<Rightarrow> bool" where
  "continuation b = (128 \<le> b \<and> b < 192)"

fun valid_utf8 :: "nat list \<Rightarrow> bool" where
  "valid_utf8 [b0, b1] = (194 \<le> b0 \<and> b0 < 224 \<and> continuation b1)"
| "valid_utf8 [b0, b1, b2] =
     (224 \<le> b0 \<and> b0 < 240 \<and> continuation b1 \<and> continuation b2
      \<and> (if b0 = 224 then 160 \<le> b1 else True) \<and> (if b0 = 237 then b1 < 160 else True))"
| "valid_utf8 [b0, b1, b2, b3] =
     (240 \<le> b0 \<and> b0 < 245 \<and> continuation b1 \<and> continuation b2 \<and> continuation b3
      \<and> (if b0 = 240 then 144 \<le> b1 else True) \<and> (if b0 = 244 then b1 < 144 else True))"
| "valid_utf8 bs = False"

text \<open>
  Decode, as a pass over the string. \<open>pending\<close> is the number of continuation octets
  still owed to the sequence \<open>octets\<close> that an earlier escape opened. Every
  character outside an escape is copied; an escape below 128 yields that character;
  an escape of 128 or more opens a sequence, each of whose further octets must be
  an escape again, and the finished sequence must be well-formed UTF-8. Everything
  else throws a URIError.
\<close>

fun decode_from :: "nat \<Rightarrow> nat list \<Rightarrow> string \<Rightarrow> exn + string" where
  "decode_from pending octets [] = (if pending = 0 then Inr [] else Inl URIError)"
| "decode_from pending octets (c # cs) =
     (if c = CHR ''%'' then
        (case cs of
           h1 # h2 # rest \<Rightarrow>
             (case hex_octet h1 h2 of
                None \<Rightarrow> Inl URIError
              | Some b \<Rightarrow>
                  if pending = 0 then
                    (if b < 128 then andThen (decode_from 0 [] rest) (\<lambda>r. Inr (char_of b # r))
                     else (case utf8_length b of
                             None \<Rightarrow> Inl URIError
                           | Some n \<Rightarrow> decode_from (n - 1) [b] rest))
                  else if pending = 1 then
                    (if valid_utf8 (octets @ [b])
                     then andThen (decode_from 0 [] rest) (\<lambda>r. Inr (map char_of (octets @ [b]) @ r))
                     else Inl URIError)
                  else decode_from (pending - 1) (octets @ [b]) rest)
         | _ \<Rightarrow> Inl URIError)
      else if pending = 0 then andThen (decode_from 0 [] cs) (\<lambda>r. Inr (c # r))
      else Inl URIError)"

definition decodeURIComponent :: "string \<Rightarrow> exn + string" where
  "decodeURIComponent s = decode_from 0 [] s"

section \<open>The URL class of the platform\<close>

text \<open>
  The handler calls \<open>new URL(apiUrl)\<close> and \<open>urlObj.searchParams.get('api')\<close>. Both
  belong to the platform, not to the repository. Their joint outcome is one of:
  the constructor throws; the URL has no \<open>api\<close> parameter (\<open>get\<close> returns null); the
  first \<open>api\<close> parameter has the given value.
\<close>

datatype url_lookup = Invalid_URL | No_param | Param string

text \<open>
  The functions of the parser take the platform's behaviour as an argument
  \<open>U :: jsval \<Rightarrow> url_lookup\<close>, so that what is proved of them for every \<open>U\<close> does not
  rest on a model of the URL standard. Where a concrete outcome is needed, \<open>URL_api\<close>
  below supplies it. It follows the WHATWG URL standard on a fragment of its inputs,
  described with \<open>URL_api_string\<close>; on the fragment its answer is the standard's, and
  outside it the answer is \<open>Invalid_URL\<close>, where the standard may accept the URL.
\<close>

fun split_on :: "char \<Rightarrow> string \<Rightarrow> string list" where
  "split_on d [] = [[]]"
| "split_on d (c # cs) =
     (if c = d then [] # split_on d cs
      else (case split_on d cs of [] \<Rightarrow> [[c]] | p # ps \<Rightarrow> (c # p) # ps))"

text \<open>Percent-decoding as the URL standard has it: a malformed escape is kept as it is.\<close>

fun percent_decode :: "string \<Rightarrow> string" where
  "percent_decode (c # h1 # h2 # rest) =
     (if c = CHR ''%'' then
        (case hex_octet h1 h2 of
           Some b \<Rightarrow> char_of b # percent_decode rest
         | None \<Rightarrow> c # percent_decode (h1 # h2 # rest))
      else c # percent_decode (h1 # h2 # rest))"
| "percent_decode cs = cs"

text \<open>
  The UTF-8 decoder of the Encoding standard, which replaces what is not well-formed
  by U+FFFD (the octets 239, 191, 189). \<open>utf8_lead\<close> reads an octet that starts a
  character: it is a character of its own, or it opens a sequence of so many further
  octets of which the next must lie between the two bounds, or it is an error.
  \<open>utf8_lossy pend need lo hi\<close> is the decoder in the state where the octets \<open>pend\<close>
  have been read and \<open>need\<close> more are owed, the next one between \<open>lo\<close> and \<open>hi\<close>.
\<close>

datatype utf8_start = Single | Opens nat nat nat | Malformed

definition utf8_lead :: "nat \<Rightarrow> utf8_start" where
  "utf8_lead b =
     (if b < 128 then Single
      else if 194 \<le> b \<and> b \<le> 223 then Opens 1 128 191
      else if 224 \<le> b \<and> b \<le> 239
        then Opens 2 (if b = 224 then 160 else 128) (if b = 237 then 159 else 191)
      else if 240 \<le> b \<and> b \<le> 244
        then Opens 3 (if b = 240 then 144 else 128) (if b = 244 then 143 else 191)
      else Malformed)"

fun utf8_lossy :: "nat list \<Rightarrow> nat \<Rightarrow> nat \<Rightarrow> nat \<Rightarrow> nat list \<Rightarrow> nat list" where
  "utf8_lossy pend need lo hi [] = (if need = 0 then [] else [239, 191, 189])"
| "utf8_lossy pend need lo hi (b # bs) =
     (if need \<noteq> 0 \<and> lo \<le> b \<and> b \<le> hi then
        (if need = 1 then pend @ [b] @ utf8_lossy [] 0 128 191 bs
         else utf8_lossy (pend @ [b]) (need - 1) 128 191 bs)
      else
        (if need \<noteq> 0 then [239, 191, 189] else []) @
        (case utf8_lead b of
           Single \<Rightarrow> b # utf8_lossy [] 0 128 191 bs
         | Opens n l h \<Rightarrow> utf8_lossy [b] n l h bs
         | Malformed \<Rightarrow> [239, 191, 189] @ utf8_lossy [] 0 128 191 bs))"

definition utf8_decode :: "string \<Rightarrow> string" where
  "utf8_decode s = map char_of (utf8_lossy [] 0 128 191 (map of_char s))"

text \<open>
  The application/x-www-form-urlencoded parser: the query is cut at every \<open>&\<close>, empty
  pieces are skipped, a piece is cut at its first \<open>=\<close> into name and value, and in
  both every \<open>+\<close> becomes a space before the escapes are decoded. Name and value are
  then decoded as UTF-8. For the name the last step is left out: a name is compared
  with \<open>api\<close> only, and its octets are \<open>api\<close> exactly when its decoding is.
\<close>

definition form_component :: "string \<Rightarrow> string" where
  "form_component s = percent_decode (map (\<lambda>c. if c = CHR ''+'' then CHR '' '' else c) s)"

definition form_pair :: "string \<Rightarrow> string \<times> string" where
  "form_pair piece =
     (form_component (takeWhile (\<lambda>c. c \<noteq> CHR ''='') piece),
      utf8_decode (form_component (drop 1 (dropWhile (\<lambda>c. c \<noteq> CHR ''='') piece))))"

definition form_pairs :: "string \<Rightarrow> (string \<times> string) list" where
  "form_pairs query = map form_pair (filter (\<lambda>piece. piece \<noteq> []) (split_on (CHR ''&'') query))"

definition printable :: "char \<Rightarrow> bool" where
  "printable c = (let n = (of_char c :: nat) in 33 \<le> n \<and> n \<le> 126)"

definition ascii_lower :: "char \<Rightarrow> char" where
  "ascii_lower c = (let n = (of_char c :: nat) in if 65 \<le> n \<and> n \<le> 90 then char_of (n + 32) else c)"

text \<open>What follows \<open>http://\<close> or \<open>https://\<close>, in letters of either case.\<close>

definition after_scheme :: "string \<Rightarrow> string option" where
  "after_scheme s =
     (if map ascii_lower (take 7 s) = ''http://'' then Some (drop 7 s)
      else if map ascii_lower (take 8 s) = ''https://'' then Some (drop 8 s)
      else None)"

text \<open>
  The authority ends at the first of \<open>/ ? #\<close> and the backslash, which an http URL
  reads as a slash. The host and port stand after the last \<open>@\<close> of the authority.
\<close>

definition ends_authority :: "char \<Rightarrow> bool" where
  "ends_authority c = (c \<in> set ''/?#'' \<or> c = CHR 0x5C)"

definition host_and_port :: "string \<Rightarrow> string" where
  "host_and_port authority = rev (takeWhile (\<lambda>c. c \<noteq> CHR ''@'') (rev authority))"

definition host_char :: "char \<Rightarrow> bool" where
  "host_char c = (is_alpha c \<or> is_digit c \<or> c = CHR ''.'' \<or> c = CHR ''-'')"

definition decimal_value :: "string \<Rightarrow> nat" where
  "decimal_value ds = foldl (\<lambda>a c. 10 * a + (of_char c - 48)) 0 ds"

text \<open>A label that the standard may read as a number: digits only, or led by \<open>0x\<close>.\<close>

definition numeric_like :: "string \<Rightarrow> bool" where
  "numeric_like l =
     ((l \<noteq> [] \<and> list_all is_digit l) \<or> map ascii_lower (take 2 l) = ''0x'')"

text \<open>One part of a plain dotted quad: a decimal numeral without leading zero, at most 255.\<close>

definition quad_part :: "string \<Rightarrow> bool" where
  "quad_part l =
     (case l of
        [] \<Rightarrow> False
      | c # cs \<Rightarrow> list_all is_digit l \<and> (c \<noteq> CHR ''0'' \<or> cs = []) \<and> decimal_value l \<le> 255)"

text \<open>
  The hosts of the fragment. When the last label is numeric-like the host is an IPv4
  address, and the fragment has the plain dotted quads. Otherwise the host is a
  domain, and the fragment has those whose labels are non-empty and do not start with
  \<open>xn--\<close>.
\<close>

definition host_in_fragment :: "string \<Rightarrow> bool" where
  "host_in_fragment h =
     (let labels = split_on (CHR ''.'') h in
      list_all host_char h
      \<and> (if numeric_like (last labels)
         then length labels = 4 \<and> list_all quad_part labels
         else list_all (\<lambda>l. l \<noteq> [] \<and> map ascii_lower (take 4 l) \<noteq> ''xn--'') labels))"

text \<open>The port, what follows the host, is absent or a colon and digits, at most 65535.\<close>

definition port_in_fragment :: "string \<Rightarrow> bool" where
  "port_in_fragment p =
     (case p of
        [] \<Rightarrow> True
      | c # ds \<Rightarrow> c = CHR '':'' \<and> list_all is_digit ds \<and> decimal_value ds \<le> 65535)"

text \<open>The query: what stands between the first \<open>?\<close> and the first \<open>#\<close> after it.\<close>

definition query_of :: "string \<Rightarrow> string option" where
  "query_of r =
     (let before_fragment = takeWhile (\<lambda>c. c \<noteq> CHR ''#'') r in
      if CHR ''?'' \<in> set before_fragment
      then Some (drop 1 (dropWhile (\<lambda>c. c \<noteq> CHR ''?'') before_fragment))
      else None)"

text \<open>
  The fragment: a string of printable ASCII characters that starts with \<open>http://\<close> or
  \<open>https://\<close>, whose authority is optional credentials, a host of the fragment and a
  port of the fragment. Not in it, among the URLs that the standard accepts: other
  schemes and an http scheme without \<open>//\<close>, input with blanks, control or non-ASCII
  characters, IPv6 hosts, IPv4 hosts in another form than a plain dotted quad, and
  domains with a punycode label, an empty label or a character other than letters,
  digits and hyphens.
\<close>

definition URL_api_string :: "string \<Rightarrow> url_lookup" where
  "URL_api_string s =
     (if \<not> list_all printable s then Invalid_URL
      else (case after_scheme s of
        None \<Rightarrow> Invalid_URL
      | Some r \<Rightarrow>
          (let hp = host_and_port (takeWhile (\<lambda>c. \<not> ends_authority c) r) in
           if \<not> host_in_fragment (takeWhile (\<lambda>c. c \<noteq> CHR '':'') hp) then Invalid_URL
           else if \<not> port_in_fragment (dropWhile (\<lambda>c. c \<noteq> CHR '':'') hp) then Invalid_URL
           else (case query_of (dropWhile (\<lambda>c. \<not> ends_authority c) r) of
             None \<Rightarrow> No_param
           | Some query \<Rightarrow>
               (case map_of (form_pairs query) ''api'' of
                  None \<Rightarrow> No_param
                | Some v \<Rightarrow> Param v)))))"

text \<open>
  The argument of \<open>new URL\<close> is converted to a string first. \<open>js_toString\<close> is ToString
  on strings, booleans, null, undefined, integers below \<open>2^53\<close> in absolute value, and
  arrays of such values, which are joined with commas, null and undefined counting as
  the empty string. It is \<open>None\<close> for the other numbers and for objects, which are
  outside the fragment.
\<close>

fun js_toString :: "jsval \<Rightarrow> string option"
  and js_join :: "jsval list \<Rightarrow> string option" where
  "js_toString JUndefined = Some ''undefined''"
| "js_toString JNull = Some ''null''"
| "js_toString (JBool b) = Some (if b then ''true'' else ''false'')"
| "js_toString (JNum n) =
     (if n = of_int \<lfloor>n\<rfloor> \<and> \<bar>n\<bar> < 9007199254740992
      then Some ((if n < 0 then ''-'' else []) @ dec (nat \<lfloor>\<bar>n\<bar>\<rfloor>))
      else None)"
| "js_toString (JStr s) = Some s"
| "js_toString (JArr xs) = js_join xs"
| "js_toString (JObj ps) = None"
| "js_join [] = Some []"
| "js_join (x # xs) =
     (case (if x = JNull \<or> x = JUndefined then Some [] else js_toString x) of
        None \<Rightarrow> None
      | Some a \<Rightarrow>
          if xs = [] then Some a
          else (case js_join xs of None \<Rightarrow> None | Some b \<Rightarrow> Some (a @ '','' @ b)))"

definition URL_api :: "jsval \<Rightarrow> url_lookup" where
  "URL_api v = (case js_toString v of None \<Rightarrow> Invalid_URL | Some s \<Rightarrow> URL_api_string s)"

section \<open>src/app/api/tvbox/parse-subscription/route.ts\<close>

text \<open>
  The entries of the reply: the object literals of lines 75-80 and 86-91. A field
  holds whatever value the expression \<open>record.field || ''\<close> yields.
\<close>

record ParsedSite =
  site_name :: jsval
  site_key :: jsval
  site_api :: jsval
  site_detail :: jsval

record ParsedLive =
  live_name :: jsval
  live_url :: jsval
  live_epg :: jsval
  live_ua :: jsval

text \<open>
  Lines 63-73. The \<open>try\<close> block constructs the URL, reads the parameter and, if it
  is a non-empty string, decodes it; the empty \<open>catch\<close> block leaves \<open>apiUrl\<close> as it was
  whenever the constructor or \<open>decodeURIComponent\<close> throws.
\<close>

definition POST_try_unwrap :: "(jsval \<Rightarrow> url_lookup) \<Rightarrow> jsval \<Rightarrow> exn + jsval" where
  "POST_try_unwrap U apiUrl =
     (case U apiUrl of
        Invalid_URL \<Rightarrow> Inl TypeError
      | No_param \<Rightarrow> Inr apiUrl
      | Param originalApi \<Rightarrow>
          if originalApi \<noteq> [] then andThen (decodeURIComponent originalApi) (\<lambda>d. Inr (JStr d))
          else Inr apiUrl)"

text \<open>
  Lines 58-81: the callback of \<open>.map\<close>. \<open>POST_apiUrl\<close> is the value of \<open>apiUrl\<close> when
  line 75 is reached (lines 60-73).
\<close>

definition POST_apiUrl :: "(jsval \<Rightarrow> url_lookup) \<Rightarrow> jsval \<Rightarrow> exn + jsval" where
  "POST_apiUrl U site =
     andThen (getprop site ''api'') (\<lambda>a.
     andThen (method_includes (or_else a (JStr [])) ''/api/cms-proxy?api='') (\<lambda>wrapped.
     Inr (if wrapped then
            (case POST_try_unwrap U (or_else a (JStr [])) of
               Inl caught \<Rightarrow> or_else a (JStr [])
             | Inr apiUrl \<Rightarrow> apiUrl)
          else or_else a (JStr []))))"

definition POST_mapSite :: "(jsval \<Rightarrow> url_lookup) \<Rightarrow> jsval \<Rightarrow> exn + ParsedSite" where
  "POST_mapSite U site =
     andThen (POST_apiUrl U site) (\<lambda>apiUrl.
     andThen (getprop site ''name'') (\<lambda>n.
     andThen (getprop site ''key'') (\<lambda>k.
     andThen (getprop site ''ext'') (\<lambda>e.
     Inr \<lparr> site_name = or_else n (JStr []),
           site_key = or_else k (JStr []),
           site_api = apiUrl,
           site_detail = or_else e (JStr []) \<rparr>))))"

text \<open>Line 57: the callback of the first \<open>.filter\<close>, \<open>site.type === 1\<close>.\<close>

definition POST_isVideoSource :: "jsval \<Rightarrow> exn + bool" where
  "POST_isVideoSource site = andThen (getprop site ''type'') (\<lambda>t. Inr (t = JNum 1))"

text \<open>Lines 55-82: \<open>parsedSites\<close>.\<close>

definition POST_parsedSites :: "(jsval \<Rightarrow> url_lookup) \<Rightarrow> jsval \<Rightarrow> exn + ParsedSite list" where
  "POST_parsedSites U subscriptionData =
     andThen (getprop subscriptionData ''sites'') (\<lambda>s.
     andThen (array_receiver (or_else s (JArr []))) (\<lambda>sites.
     andThen (Array_filter POST_isVideoSource sites) (\<lambda>video.
     andThen (Array_map (POST_mapSite U) video) (\<lambda>mapped.
     Inr (filter (\<lambda>site. truthy (site_api site) \<and> truthy (site_name site)) mapped)))))"

text \<open>Lines 86-91: the callback of \<open>lives.map\<close>.\<close>

definition POST_mapLive :: "jsval \<Rightarrow> exn + ParsedLive" where
  "POST_mapLive live =
     andThen (getprop live ''name'') (\<lambda>n.
     andThen (getprop live ''url'') (\<lambda>u.
     andThen (getprop live ''epg'') (\<lambda>e.
     andThen (getprop live ''ua'') (\<lambda>a.
     Inr \<lparr> live_name = or_else n (JStr []),
           live_url = or_else u (JStr []),
           live_epg = or_else e (JStr []),
           live_ua = or_else a (JStr []) \<rparr>))))"

text \<open>Lines 85-91: \<open>parsedLives\<close>.\<close>

definition POST_parsedLives :: "jsval \<Rightarrow> exn + ParsedLive list" where
  "POST_parsedLives subscriptionData =
     andThen (getprop subscriptionData ''lives'') (\<lambda>l.
     andThen (array_receiver (or_else l (JArr []))) (\<lambda>lives.
     andThen (Array_map POST_mapLive lives) (\<lambda>mapped.
     Inr (filter (\<lambda>live. truthy (live_url live) \<and> truthy (live_name live)) mapped))))"

text \<open>
  The response of \<open>fetch\<close>, as far as the handler reads it: \<open>response.ok\<close>,
  \<open>response.status\<close>, \<open>response.statusText\<close>, \<open>response.headers.get('content-type')\<close>
  (null when the header is absent), and the body. Of the body only the JSON value
  that its text denotes matters; \<open>body_json\<close> is \<open>None\<close> when the text is not valid
  JSON. \<open>response.json()\<close> and \<open>JSON.parse(await response.text())\<close> parse the same text.
\<close>

record response =
  ok :: bool
  status :: nat
  statusText :: string
  content_type :: "string option"
  body_json :: "jsval option"

text \<open>
  The replies of the handler. The four messages are the string literals of lines 17
  (asks for a subscription link), 31 (fetching the subscription failed, with status
  and status text), 48 (the subscription content is not valid JSON) and 106 (parsing
  the subscription failed; the reply carries the message of the exception).
\<close>

datatype message =
    ProvideSubscriptionUrl
  | FetchFailed nat string
  | NotValidJSON
  | ParseFailed

record reply_data =
  sites :: "ParsedSite list"
  lives :: "ParsedLive list"
  totalSites :: nat
  totalLives :: nat

datatype payload =
    Error message
  | ErrorDetails message exn
  | Success reply_data

datatype reply = Reply nat payload

text \<open>Lines 54-101: from the parsed document to the reply.\<close>

definition POST_reply_for :: "(jsval \<Rightarrow> url_lookup) \<Rightarrow> jsval \<Rightarrow> exn + reply" where
  "POST_reply_for U subscriptionData =
     andThen (POST_parsedSites U subscriptionData) (\<lambda>parsedSites.
     andThen (POST_parsedLives subscriptionData) (\<lambda>parsedLives.
     Inr (Reply 200 (Success \<lparr> sites = parsedSites, lives = parsedLives,
                               totalSites = length parsedSites,
                               totalLives = length parsedLives \<rparr>))))"

text \<open>
  Lines 13-101: the body of the outer \<open>try\<close>. \<open>request_json\<close> is the outcome of
  \<open>await request.json()\<close> (a SyntaxError when the request body is not JSON) and
  \<open>fetched\<close> the outcome of the one call of \<open>fetch\<close>, which is made only when \<open>url\<close> is
  truthy.
\<close>

definition POST_try :: "(jsval \<Rightarrow> url_lookup) \<Rightarrow> exn + jsval \<Rightarrow> exn + response \<Rightarrow> exn + reply" where
  "POST_try U request_json fetched =
     andThen request_json (\<lambda>body.
     andThen (getprop body ''url'') (\<lambda>url.
     if \<not> truthy url then Inr (Reply 400 (Error ProvideSubscriptionUrl))
     else andThen fetched (\<lambda>response.
       if \<not> ok response
       then Inr (Reply 400 (Error (FetchFailed (status response) (statusText response))))
       else if String_includes (case content_type response of None \<Rightarrow> [] | Some c \<Rightarrow> c)
                 ''application/json''
       then (case body_json response of
               None \<Rightarrow> Inl SyntaxError
             | Some subscriptionData \<Rightarrow> POST_reply_for U subscriptionData)
       else (case body_json response of
               None \<Rightarrow> Inr (Reply 400 (Error NotValidJSON))
             | Some subscriptionData \<Rightarrow> POST_reply_for U subscriptionData))))"

text \<open>Lines 11-112: the handler, with the outer \<open>catch\<close> of lines 102-111.\<close>

definition POST :: "(jsval \<Rightarrow> url_lookup) \<Rightarrow> exn + jsval \<Rightarrow> exn + response \<Rightarrow> reply" where
  "POST U request_json fetched =
     (case POST_try U request_json fetched of
        Inr r \<Rightarrow> r
      | Inl e \<Rightarrow> Reply 500 (ErrorDetails ParseFailed e))"

section \<open>src/lib/admin-auth.ts\<close>

text \<open>parseTVBoxSubscription, lines 180-212, with its two callbacks.\<close>

definition lib_try_unwrap :: "(jsval \<Rightarrow> url_lookup) \<Rightarrow> jsval \<Rightarrow> exn + jsval" where
  "lib_try_unwrap U apiUrl =
     (case U apiUrl of
        Invalid_URL \<Rightarrow> Inl TypeError
      | No_param \<Rightarrow> Inr apiUrl
      | Param originalApi \<Rightarrow>
          if originalApi \<noteq> [] then andThen (decodeURIComponent originalApi) (\<lambda>d. Inr (JStr d))
          else Inr apiUrl)"

definition lib_apiUrl :: "(jsval \<Rightarrow> url_lookup) \<Rightarrow> jsval \<Rightarrow> exn + jsval" where
  "lib_apiUrl U site =
     andThen (getprop site ''api'') (\<lambda>a.
     andThen (method_includes (or_else a (JStr [])) ''/api/cms-proxy?api='') (\<lambda>wrapped.
     Inr (if wrapped then
            (case lib_try_unwrap U (or_else a (JStr [])) of
               Inl caught \<Rightarrow> or_else a (JStr [])
             | Inr apiUrl \<Rightarrow> apiUrl)
          else or_else a (JStr []))))"

definition lib_mapSite :: "(jsval \<Rightarrow> url_lookup) \<Rightarrow> jsval \<Rightarrow> exn + ParsedSite" where
  "lib_mapSite U site =
     andThen (lib_apiUrl U site) (\<lambda>apiUrl.
     andThen (getprop site ''name'') (\<lambda>n.
     andThen (getprop site ''key'') (\<lambda>k.
     andThen (getprop site ''ext'') (\<lambda>e.
     Inr \<lparr> site_name = or_else n (JStr []),
           site_key = or_else k (JStr []),
           site_api = apiUrl,
           site_detail = or_else e (JStr []) \<rparr>))))"

definition lib_isVideoSource :: "jsval \<Rightarrow> exn + bool" where
  "lib_isVideoSource site = andThen (getprop site ''type'') (\<lambda>t. Inr (t = JNum 1))"

definition parseTVBoxSubscription :: "(jsval \<Rightarrow> url_lookup) \<Rightarrow> jsval \<Rightarrow> exn + ParsedSite list" where
  "parseTVBoxSubscription U subscription =
     andThen (getprop subscription ''sites'') (\<lambda>s.
     andThen (array_receiver (or_else s (JArr []))) (\<lambda>sites.
     andThen (Array_filter lib_isVideoSource sites) (\<lambda>video.
     andThen (Array_map (lib_mapSite U) video) (\<lambda>mapped.
     Inr (filter (\<lambda>site. truthy (site_api site) \<and> truthy (site_name site)) mapped)))))"

section \<open>Notions used in the statements\<close>

text \<open>
  \<open>read_field v k\<close> is the value of \<open>v.k\<close> for a value \<open>v\<close> that is neither null nor
  undefined: the member of that name, or \<open>undefined\<close> when there is none.
\<close>

definition read_field :: "jsval \<Rightarrow> string \<Rightarrow> jsval" where
  "read_field v k = (case getprop v k of Inr x \<Rightarrow> x | Inl e \<Rightarrow> JUndefined)"

text \<open>
  A site record is complete when the entry that the \<open>.map\<close> callback makes of it has a
  truthy (for strings: non-empty) api and name.
\<close>

definition site_complete :: "(jsval \<Rightarrow> url_lookup) \<Rightarrow> jsval \<Rightarrow> bool" where
  "site_complete U site =
     (case POST_mapSite U site of
        Inr p \<Rightarrow> truthy (site_api p) \<and> truthy (site_name p)
      | Inl e \<Rightarrow> False)"

text \<open>The value of a decimal numeral, the inverse of \<open>dec\<close>.\<close>

definition digit_value :: "char \<Rightarrow> nat" where
  "digit_value c = of_char c - 48"

definition undec :: "string \<Rightarrow> nat" where
  "undec s = foldl (\<lambda>a c. 10 * a + digit_value c) 0 s"

section \<open>The address resolver\<close>

text \<open>
  C1, as amended. In a server context a non-empty environment base is returned
  verbatim whatever the persisted base and the caller origin are; otherwise, still in
  a server context, a non-empty persisted base is returned verbatim. Otherwise, that
  is in a client context or when both are empty or absent, a non-empty caller origin
  is returned verbatim. Otherwise a client context returns the origin of the current
  page and a server context the fixed default.
\<close>

theorem getBestAccessURL_priority:
  "(e \<noteq> [] \<longrightarrow> getBestAccessURL (Server (Some e)) co p db = Inr e)
 \<and> (\<not> truthy_string env \<longrightarrow> d \<noteq> [] \<longrightarrow>
       getBestAccessURL (Server env) co p (Some d) = Inr d)
 \<and> (\<not> truthy_string env \<longrightarrow> \<not> truthy_string db \<longrightarrow> c \<noteq> [] \<longrightarrow>
       getBestAccessURL (Server env) (Some c) p db = Inr c)
 \<and> (c \<noteq> [] \<longrightarrow> getBestAccessURL (Client origin) (Some c) p db = Inr c)
 \<and> (\<not> truthy_string co \<longrightarrow> getBestAccessURL (Client origin) co p db = Inr origin)
 \<and> (\<not> truthy_string env \<longrightarrow> \<not> truthy_string db \<longrightarrow> \<not> truthy_string co \<longrightarrow>
       getBestAccessURL (Server env) co p db = Inr ''http://localhost:3000'')"
  by (cases co; cases db; cases env)
     (simp_all add: getBestAccessURL_def server_block_def)

text \<open>One call for each of the six cases of C1 as amended.\<close>

theorem getBestAccessURL_priority_witness:
  "getBestAccessURL (Server (Some ''http://env'')) (Some ''http://c'') (Some (3000::nat))
     (Some ''http://db'') = Inr ''http://env''
 \<and> getBestAccessURL (Server None) (Some ''http://c'') (Some (3000::nat))
     (Some ''http://db'') = Inr ''http://db''
 \<and> getBestAccessURL (Server (Some [])) (Some ''http://c'') (Some (3000::nat)) None
     = Inr ''http://c''
 \<and> getBestAccessURL (Client ''http://page'') (Some ''http://c'') (Some (3000::nat))
     (Some ''http://db'') = Inr ''http://c''
 \<and> getBestAccessURL (Client ''http://page'') None (Some (3000::nat)) (Some ''http://db'')
     = Inr ''http://page''
 \<and> getBestAccessURL (Server None) (Some []) (Some (3000::nat)) None
     = Inr ''http://localhost:3000''"
  using
    getBestAccessURL_priority [where e = "''http://env''" and co = "Some ''http://c''"
      and p = "Some (3000::nat)" and db = "Some ''http://db''"]
    getBestAccessURL_priority [where env = None and d = "''http://db''"
      and co = "Some ''http://c''" and p = "Some (3000::nat)"]
    getBestAccessURL_priority [where env = "Some []" and db = None and c = "''http://c''"
      and p = "Some (3000::nat)"]
    getBestAccessURL_priority [where c = "''http://c''" and origin = "''http://page''"
      and p = "Some (3000::nat)" and db = "Some ''http://db''"]
    getBestAccessURL_priority [where co = None and origin = "''http://page''"
      and p = "Some (3000::nat)" and db = "Some ''http://db''"]
    getBestAccessURL_priority [where env = None and db = None and co = "Some []"
      and p = "Some (3000::nat)"]
  by simp

text \<open>
  C1 as stated fails in a client context. The claim lets a non-empty persisted base
  win over the caller origin and the page origin in every context; the code consults
  it on the server only (lines 161-176). With the persisted base \<open>http://db\<close>, a
  browser call returns the caller origin, or the page origin when there is no caller
  origin.
\<close>

theorem getBestAccessURL_client_counterexample:
  "getBestAccessURL (Client ''http://page'') (Some ''http://c'') (Some (3000::nat))
     (Some ''http://db'') = Inr ''http://c''
 \<and> getBestAccessURL (Client ''http://page'') None (Some (3000::nat)) (Some ''http://db'')
     = Inr ''http://page''"
  by (simp add: getBestAccessURL_def server_block_def)

text \<open>In a client context the persisted base is not consulted at all.\<close>

lemma getBestAccessURL_client_ignores_dbSiteBase:
  "getBestAccessURL (Client origin) currentOrigin port dbSiteBase
     = getBestAccessURL (Client origin) currentOrigin port dbSiteBase'"
  by (simp add: getBestAccessURL_def server_block_def)

text \<open>
  C8. For every caller origin, port, persisted base and ambient environment,
  getBestAccessURL returns a string and never throws; the string is one of the
  environment base, the persisted base, the caller origin, the page origin and the
  fixed default.
\<close>

theorem getBestAccessURL_total:
  "\<exists>u. getBestAccessURL rt currentOrigin port dbSiteBase = Inr u
     \<and> (Some u = dbSiteBase \<or> Some u = currentOrigin \<or> rt = Client u
        \<or> rt = Server (Some u) \<or> u = ''http://localhost:3000'')"
  by (cases rt; cases currentOrigin; cases dbSiteBase)
     (auto simp: getBestAccessURL_def server_block_def split: option.splits)

text \<open>
  C9. Two calls of getBestAccessURL that agree on the caller origin, the persisted
  base and the ambient environment return the same URL, whatever their port arguments.
\<close>

theorem getBestAccessURL_port_irrelevant:
  "getBestAccessURL rt currentOrigin port dbSiteBase
     = getBestAccessURL rt currentOrigin port' dbSiteBase"
  by (simp add: getBestAccessURL_def)

section \<open>The classifier of local addresses\<close>

text \<open>Decimal numerals have no dot and determine their number.\<close>

lemma digit_char_not_dot: "d < 10 \<Longrightarrow> digit_char d \<noteq> CHR ''.''"
  unfolding digit_char_def
  by (auto simp add: less_Suc_eq numeral_eq_Suc nth_Cons split: nat.splits)

lemma digit_value_digit_char: "d < 10 \<Longrightarrow> digit_value (digit_char d) = d"
  unfolding digit_char_def digit_value_def
  by (auto simp add: less_Suc_eq numeral_eq_Suc nth_Cons split: nat.splits)

lemma dec_no_dot: "CHR ''.'' \<notin> set (dec n)"
proof (induction n rule: dec.induct)
  case (1 n)
  show ?case
  proof (cases "n < 10")
    case True
    then show ?thesis using digit_char_not_dot [of n] by (subst dec.simps) auto
  next
    case False
    then show ?thesis using 1 digit_char_not_dot [of "n mod 10"]
      by (subst dec.simps) auto
  qed
qed

lemma undec_dec: "undec (dec n) = n"
proof (induction n rule: dec.induct)
  case (1 n)
  show ?case
  proof (cases "n < 10")
    case True
    then show ?thesis by (subst dec.simps) (simp add: undec_def digit_value_digit_char)
  next
    case False
    then have "undec (dec (n div 10)) = n div 10" using 1 by simp
    with False show ?thesis
      by (subst dec.simps) (simp add: undec_def digit_value_digit_char)
  qed
qed

lemma dec_inj: "dec a = dec b \<longleftrightarrow> a = b"
  by (metis undec_dec)

lemma dotted_eq:
  "CHR ''.'' \<notin> set x \<Longrightarrow> CHR ''.'' \<notin> set y \<Longrightarrow>
     (x @ CHR ''.'' # r = y @ CHR ''.'' # s) \<longleftrightarrow> (x = y \<and> r = s)"
proof (induction x arbitrary: y)
  case Nil
  then show ?case by (cases y) auto
next
  case (Cons c x)
  then show ?case by (cases y) auto
qed

lemma dotted_prefix:
  "CHR ''.'' \<notin> set x \<Longrightarrow> CHR ''.'' \<notin> set y \<Longrightarrow>
     prefix (x @ CHR ''.'' # r) (y @ CHR ''.'' # s) \<longleftrightarrow> (x = y \<and> prefix r s)"
proof (induction x arbitrary: y)
  case Nil
  then show ?case by (cases y) auto
next
  case (Cons c x)
  then show ?case by (cases y) auto
qed

lemma dec_small: "n < 10 \<Longrightarrow> dec n = [digit_char n]" by (subst dec.simps) simp

lemma dec_two: "10 \<le> n \<Longrightarrow> n < 100 \<Longrightarrow> dec n = [digit_char (n div 10), digit_char (n mod 10)]"
  by (subst dec.simps) (simp add: dec_small)

lemma dec_literals:
  "dec 0 = ''0''" "dec (Suc 0) = ''1''" "dec 10 = ''10''" "dec 127 = ''127''" "dec 168 = ''168''"
  "dec 172 = ''172''" "dec 192 = ''192''"
  by (simp_all add: dec.simps digit_char_def)

lemma ipv4_not_localhost: "ipv4 a b c d \<noteq> ''localhost''"
proof
  assume "ipv4 a b c d = ''localhost''"
  then have "CHR ''.'' \<in> set ''localhost''" unfolding ipv4_def by (metis in_set_conv_decomp append_Cons)
  then show False by simp
qed

lemma ipv4_eq_loopback: "ipv4 a b c d = ''127.0.0.1'' \<longleftrightarrow> a = 127 \<and> b = 0 \<and> c = 0 \<and> d = 1"
proof -
  have e: "''127.0.0.1'' = dec 127 @ CHR ''.'' # dec 0 @ CHR ''.'' # dec 0 @ CHR ''.'' # dec (Suc 0)"
    by (simp add: dec_literals)
  show ?thesis
    unfolding ipv4_def e by (simp add: dotted_eq dec_no_dot dec_inj)
qed

lemma pattern_192_168_ipv4: "pattern_192_168 (ipv4 a b c d) \<longleftrightarrow> a = 192 \<and> b = 168"
proof -
  have e: "''192.168.'' = dec 192 @ CHR ''.'' # dec 168 @ CHR ''.'' # []"
    by (simp add: dec_literals)
  show ?thesis
    unfolding pattern_192_168_def ipv4_def e
    by (simp add: dotted_prefix dec_no_dot dec_inj)
qed

lemma pattern_10_ipv4: "pattern_10 (ipv4 a b c d) \<longleftrightarrow> a = 10"
proof -
  have e: "''10.'' = dec 10 @ CHR ''.'' # []"
    by (simp add: dec_literals)
  show ?thesis
    unfolding pattern_10_def ipv4_def e
    by (simp add: dotted_prefix dec_no_dot dec_inj)
qed

lemma digit_char_first:
  "x < 10 \<Longrightarrow>
     (digit_char x = CHR ''1'' \<longleftrightarrow> x = 1) \<and> (digit_char x = CHR ''2'' \<longleftrightarrow> x = 2)
     \<and> (digit_char x = CHR ''3'' \<longleftrightarrow> x = 3)"
  unfolding digit_char_def
  by (auto simp add: less_Suc_eq numeral_eq_Suc)

lemma digit_char_second:
  "y < 10 \<Longrightarrow>
     (digit_char y \<in> set ''6789'' \<longleftrightarrow> 6 \<le> y) \<and> digit_char y \<in> set ''0123456789''
     \<and> (digit_char y \<in> set ''01'' \<longleftrightarrow> y \<le> 1)"
  unfolding digit_char_def
  by (auto simp add: less_Suc_eq numeral_eq_Suc)

lemma group_digits:
  "x < 10 \<Longrightarrow> y < 10 \<Longrightarrow>
     group_16_31 (digit_char x) (digit_char y) \<longleftrightarrow> (x = 1 \<and> 6 \<le> y) \<or> x = 2 \<or> (x = 3 \<and> y \<le> 1)"
  unfolding group_16_31_def
  by (simp only: digit_char_first digit_char_second) simp

lemma digit_char_digit_value:
  "c \<in> set ''0123456789'' \<Longrightarrow> digit_value c < 10 \<and> digit_char (digit_value c) = c"
  unfolding digit_char_def digit_value_def by auto

lemma group_16_31_iff:
  "group_16_31 a b \<longleftrightarrow> (\<exists>n. 16 \<le> n \<and> n \<le> 31 \<and> dec n = [a, b])"
proof
  assume g: "group_16_31 a b"
  then have "a \<in> set ''0123456789''" "b \<in> set ''0123456789''"
    unfolding group_16_31_def by auto
  then obtain x y where x: "x < 10" "digit_char x = a" and y: "y < 10" "digit_char y = b"
    using digit_char_digit_value by blast
  with g have r: "(x = 1 \<and> 6 \<le> y) \<or> x = 2 \<or> (x = 3 \<and> y \<le> 1)"
    using group_digits [of x y] by simp
  let ?n = "10 * x + y"
  from r x y have "16 \<le> ?n" "?n \<le> 31" "10 \<le> ?n" "?n < 100" by auto
  moreover have "?n div 10 = x" "?n mod 10 = y" using y by auto
  ultimately have "dec ?n = [a, b]" using x y by (simp add: dec_two)
  with \<open>16 \<le> ?n\<close> \<open>?n \<le> 31\<close> show "\<exists>n. 16 \<le> n \<and> n \<le> 31 \<and> dec n = [a, b]" by blast
next
  assume "\<exists>n. 16 \<le> n \<and> n \<le> 31 \<and> dec n = [a, b]"
  then obtain n where n: "16 \<le> n" "n \<le> 31" and d: "dec n = [a, b]" by blast
  from n have "dec n = [digit_char (n div 10), digit_char (n mod 10)]" by (simp add: dec_two)
  with d have ab: "a = digit_char (n div 10)" "b = digit_char (n mod 10)" by simp_all
  have "n div 10 < 10" "n mod 10 < 10" using n by auto
  moreover have "(n div 10 = 1 \<and> 6 \<le> n mod 10) \<or> n div 10 = 2 \<or> (n div 10 = 3 \<and> n mod 10 \<le> 1)"
    using n by presburger
  ultimately show "group_16_31 a b" unfolding ab using group_digits by blast
qed

lemma pattern_172_iff:
  "pattern_172 h \<longleftrightarrow> (\<exists>n. 16 \<le> n \<and> n \<le> 31 \<and> prefix (''172.'' @ dec n @ ''.'') h)"
proof
  assume p: "pattern_172 h"
  then obtain a b rest where h: "h = ''172.'' @ [a, b] @ ''.'' @ rest" and g: "group_16_31 a b"
    by (cases h rule: pattern_172.cases) auto
  from g obtain n where "16 \<le> n" "n \<le> 31" "dec n = [a, b]"
    unfolding group_16_31_iff by blast
  then show "\<exists>n. 16 \<le> n \<and> n \<le> 31 \<and> prefix (''172.'' @ dec n @ ''.'') h"
    using h by auto
next
  assume "\<exists>n. 16 \<le> n \<and> n \<le> 31 \<and> prefix (''172.'' @ dec n @ ''.'') h"
  then obtain n where n: "16 \<le> n" "n \<le> 31" and pre: "prefix (''172.'' @ dec n @ ''.'') h" by blast
  have d: "dec n = [digit_char (n div 10), digit_char (n mod 10)]" using n by (simp add: dec_two)
  from pre obtain rest where h: "h = ''172.'' @ dec n @ ''.'' @ rest" by (auto simp: prefix_def)
  have "group_16_31 (digit_char (n div 10)) (digit_char (n mod 10))"
    unfolding group_16_31_iff using n d by auto
  then show "pattern_172 h" using h d by simp
qed

lemma pattern_172_ipv4: "pattern_172 (ipv4 a b c d) \<longleftrightarrow> a = 172 \<and> 16 \<le> b \<and> b \<le> 31"
proof -
  have "prefix (''172.'' @ dec n @ ''.'') (ipv4 a b c d) \<longleftrightarrow> a = 172 \<and> b = n" for n
  proof -
    have e: "''172.'' @ dec n @ ''.'' = dec 172 @ CHR ''.'' # dec n @ CHR ''.'' # []"
      by (simp add: dec_literals)
    show ?thesis
      unfolding ipv4_def e by (auto simp add: dotted_prefix dec_no_dot dec_inj)
  qed
  then show ?thesis unfolding pattern_172_iff by auto
qed

text \<open>
  C7, as amended. isLocalNetwork is true exactly of \<open>localhost\<close>, of \<open>127.0.0.1\<close> and
  of the strings that begin with \<open>192.168.\<close>, with \<open>10.\<close> or with \<open>172.N.\<close> for a
  two-digit N from 16 to 31. On a dotted quad \<open>a.b.c.d\<close> this is 127.0.0.1 and the
  ranges 192.168.0.0/16, 10.0.0.0/8 and 172.16.0.0/12: it is the second octet of a
  172.x address that must lie in [16,31], the third and fourth are free. The seven
  addresses of the claim are classified as it says.
\<close>

theorem isLocalNetwork_ranges:
  "(isLocalNetwork h \<longleftrightarrow>
      h = ''localhost'' \<or> h = ''127.0.0.1'' \<or> prefix ''192.168.'' h \<or> prefix ''10.'' h
      \<or> (\<exists>n. 16 \<le> n \<and> n \<le> 31 \<and> prefix (''172.'' @ dec n @ ''.'') h))
   \<and> (isLocalNetwork (ipv4 a b c d) \<longleftrightarrow>
        (a = 127 \<and> b = 0 \<and> c = 0 \<and> d = 1) \<or> (a = 192 \<and> b = 168) \<or> a = 10
        \<or> (a = 172 \<and> 16 \<le> b \<and> b \<le> 31))
   \<and> isLocalNetwork ''192.168.1.5'' \<and> isLocalNetwork ''10.0.0.1''
   \<and> isLocalNetwork ''172.20.3.4'' \<and> isLocalNetwork ''localhost''
   \<and> isLocalNetwork ''127.0.0.1'' \<and> isLocalNetwork ''8.8.8.8'' = False
   \<and> isLocalNetwork ''172.32.0.1'' = False"
proof (intro conjI)
  show "isLocalNetwork h \<longleftrightarrow>
      h = ''localhost'' \<or> h = ''127.0.0.1'' \<or> prefix ''192.168.'' h \<or> prefix ''10.'' h
      \<or> (\<exists>n. 16 \<le> n \<and> n \<le> 31 \<and> prefix (''172.'' @ dec n @ ''.'') h)"
    unfolding isLocalNetwork_def localPatterns_def pattern_172_iff [symmetric]
    by (simp add: pattern_192_168_def pattern_10_def)
  show "isLocalNetwork (ipv4 a b c d) \<longleftrightarrow>
        (a = 127 \<and> b = 0 \<and> c = 0 \<and> d = 1) \<or> (a = 192 \<and> b = 168) \<or> a = 10
        \<or> (a = 172 \<and> 16 \<le> b \<and> b \<le> 31)"
    unfolding isLocalNetwork_def localPatterns_def
    by (auto simp add: ipv4_not_localhost ipv4_eq_loopback pattern_192_168_ipv4 pattern_10_ipv4
        pattern_172_ipv4)
qed (simp_all add: isLocalNetwork_def localPatterns_def pattern_192_168_def pattern_10_def
      group_16_31_def)

text \<open>
  C7 as stated requires the third octet of a 172.x address to lie in [16,31]. The
  address 172.20.3.4 is recognised although its third octet is 3, and 172.40.20.1 is
  not although its third octet is 20.
\<close>

theorem isLocalNetwork_third_octet_counterexample:
  "isLocalNetwork (ipv4 172 20 3 4) = True \<and> isLocalNetwork (ipv4 172 40 20 1) = False
   \<and> ipv4 172 20 3 4 = ''172.20.3.4'' \<and> ipv4 172 40 20 1 = ''172.40.20.1''"
  by (simp add: isLocalNetwork_def localPatterns_def pattern_192_168_def pattern_10_def
      group_16_31_def ipv4_def dec.simps digit_char_def)

section \<open>Computations that may throw\<close>

lemma andThen_Inr_iff: "andThen m f = Inr y \<longleftrightarrow> (\<exists>x. m = Inr x \<and> f x = Inr y)"
  by (cases m) auto

lemma Array_filter_Inr:
  "Array_filter f xs = Inr ys \<Longrightarrow> ys = filter (\<lambda>x. f x = Inr True) xs"
proof (induction xs arbitrary: ys)
  case Nil
  then show ?case by simp
next
  case (Cons x xs)
  then show ?case by (auto simp: andThen_Inr_iff)
qed

lemma Array_map_Inr:
  "Array_map f xs = Inr ys \<Longrightarrow> list_all2 (\<lambda>x y. f x = Inr y) xs ys"
proof (induction xs arbitrary: ys)
  case Nil
  then show ?case by simp
next
  case (Cons x xs)
  then show ?case by (auto simp: andThen_Inr_iff)
qed

lemma Array_filter_returns:
  "(\<And>x. x \<in> set xs \<Longrightarrow> \<exists>b. f x = Inr b) \<Longrightarrow> \<exists>ys. Array_filter f xs = Inr ys"
proof (induction xs)
  case Nil
  then show ?case by simp
next
  case (Cons x xs)
  then obtain b ys where "f x = Inr b" "Array_filter f xs = Inr ys"
    by (metis list.set_intros(1,2))
  then show ?case by simp
qed

lemma Array_map_returns:
  "(\<And>x. x \<in> set xs \<Longrightarrow> \<exists>y. f x = Inr y) \<Longrightarrow> \<exists>ys. Array_map f xs = Inr ys"
proof (induction xs)
  case Nil
  then show ?case by simp
next
  case (Cons x xs)
  then obtain y ys where "f x = Inr y" "Array_map f xs = Inr ys"
    by (metis list.set_intros(1,2))
  then show ?case by simp
qed

lemma list_all2_filter_image:
  "list_all2 (\<lambda>x y. f x = Inr y) xs ys \<Longrightarrow>
     list_all2 (\<lambda>x y. f x = Inr y)
       (filter (\<lambda>x. case f x of Inr y \<Rightarrow> V y | Inl e \<Rightarrow> False) xs) (filter V ys)"
  by (induction xs ys rule: list_all2_induct) auto

lemma getprop_read_field:
  "v \<noteq> JNull \<Longrightarrow> v \<noteq> JUndefined \<Longrightarrow> getprop v k = Inr (read_field v k)"
  by (cases v) (simp_all add: read_field_def)

section \<open>The two site parsers\<close>

text \<open>
  C10. For every subscription document and every behaviour of the platform's URL
  class, parseTVBoxSubscription of admin-auth.ts and the site extraction of the
  parse-subscription handler give the same result: the same list of parsed sites,
  element for element, or the same exception.
\<close>

theorem parseTVBoxSubscription_eq_POST_parsedSites:
  "parseTVBoxSubscription U subscription = POST_parsedSites U subscription"
  unfolding parseTVBoxSubscription_def POST_parsedSites_def lib_isVideoSource_def
    POST_isVideoSource_def lib_mapSite_def POST_mapSite_def lib_apiUrl_def POST_apiUrl_def
    lib_try_unwrap_def POST_try_unwrap_def
  by (rule refl)

section \<open>Site extraction\<close>

lemma POST_isVideoSource_True:
  "POST_isVideoSource site = Inr True \<longleftrightarrow> getprop site ''type'' = Inr (JNum 1)"
  by (auto simp: POST_isVideoSource_def andThen_Inr_iff)

lemma POST_parsedSites_Inr:
  assumes "getprop doc ''sites'' = Inr (JArr xs)" and "POST_parsedSites U doc = Inr out"
  shows "list_all2 (\<lambda>site p. POST_mapSite U site = Inr p)
           (filter (\<lambda>site. getprop site ''type'' = Inr (JNum 1) \<and> site_complete U site) xs) out"
proof -
  from assms obtain video mapped where
    v: "Array_filter POST_isVideoSource xs = Inr video" and
    m: "Array_map (POST_mapSite U) video = Inr mapped" and
    out: "out = filter (\<lambda>site. truthy (site_api site) \<and> truthy (site_name site)) mapped"
    by (auto simp: POST_parsedSites_def andThen_Inr_iff or_else_def)
  have video: "video = filter (\<lambda>site. getprop site ''type'' = Inr (JNum 1)) xs"
    using Array_filter_Inr [OF v] by (simp add: POST_isVideoSource_True)
  from Array_map_Inr [OF m]
  have "list_all2 (\<lambda>site p. POST_mapSite U site = Inr p)
          (filter (\<lambda>site. case POST_mapSite U site of
                            Inr p \<Rightarrow> truthy (site_api p) \<and> truthy (site_name p)
                          | Inl e \<Rightarrow> False) video) out"
    unfolding out by (rule list_all2_filter_image)
  then show ?thesis
    unfolding video site_complete_def by (simp add: conj_commute)
qed

text \<open>
  The parser returns on every document whose site records are objects with an api
  that is a string or absent, as the interface TVBoxSite of admin-auth.ts has them.
\<close>

lemma POST_parsedSites_returns:
  assumes "getprop doc ''sites'' = Inr (JArr xs)"
    and "\<And>site. site \<in> set xs \<Longrightarrow>
           site \<noteq> JNull \<and> site \<noteq> JUndefined
           \<and> (read_field site ''api'' = JUndefined \<or> (\<exists>a. read_field site ''api'' = JStr a))"
  shows "\<exists>out. POST_parsedSites U doc = Inr out"
proof -
  have "\<exists>b. POST_isVideoSource site = Inr b" if "site \<in> set xs" for site
    using assms(2) [OF that] by (simp add: POST_isVideoSource_def getprop_read_field)
  then obtain video where v: "Array_filter POST_isVideoSource xs = Inr video"
    using Array_filter_returns by blast
  have "\<exists>p. POST_mapSite U site = Inr p" if "site \<in> set video" for site
  proof -
    from that have "site \<in> set xs" using Array_filter_Inr [OF v] by simp
    from assms(2) [OF this] show ?thesis
      by (auto simp: POST_mapSite_def POST_apiUrl_def getprop_read_field or_else_def)
  qed
  then obtain mapped where "Array_map (POST_mapSite U) video = Inr mapped"
    using Array_map_returns by blast
  with v assms(1) show ?thesis
    by (simp add: POST_parsedSites_def or_else_def)
qed

text \<open>
  C5, as amended. For every subscription document the parsed sites are, in order and
  one for one, the entries made of exactly those site records whose type is the
  number 1 and which are complete, that is whose name and effective api are
  non-empty; records of every other type are dropped. In particular the document
  \<open>{ sites: [{type:1, name:"A", api:"http://x", key:"k"}, {type:2, name:"B",
  api:"http://y"}] }\<close> yields exactly one parsed site, named A.
\<close>

theorem POST_parsedSites_keeps_type_1:
  "(getprop doc ''sites'' = Inr (JArr xs) \<longrightarrow> POST_parsedSites U doc = Inr out \<longrightarrow>
      list_all2 (\<lambda>site p. POST_mapSite U site = Inr p)
        (filter (\<lambda>site. getprop site ''type'' = Inr (JNum 1) \<and> site_complete U site) xs) out)
 \<and> POST_parsedSites U (JObj [(''sites'', JArr [
        JObj [(''type'', JNum 1), (''name'', JStr ''A''), (''api'', JStr ''http://x''),
              (''key'', JStr ''k'')],
        JObj [(''type'', JNum 2), (''name'', JStr ''B''), (''api'', JStr ''http://y'')]])])
     = Inr [\<lparr> site_name = JStr ''A'', site_key = JStr ''k'', site_api = JStr ''http://x'',
               site_detail = JStr [] \<rparr>]"
proof (intro conjI impI)
  show "POST_parsedSites U (JObj [(''sites'', JArr [
        JObj [(''type'', JNum 1), (''name'', JStr ''A''), (''api'', JStr ''http://x''),
              (''key'', JStr ''k'')],
        JObj [(''type'', JNum 2), (''name'', JStr ''B''), (''api'', JStr ''http://y'')]])])
     = Inr [\<lparr> site_name = JStr ''A'', site_key = JStr ''k'', site_api = JStr ''http://x'',
               site_detail = JStr [] \<rparr>]"
    by (simp add: POST_parsedSites_def POST_isVideoSource_def POST_mapSite_def POST_apiUrl_def
        or_else_def)
qed (rule POST_parsedSites_Inr)

text \<open>
  A document with a complete record of type 1, a record of type 2 and a record of
  type 1 without a name: only the first is kept.
\<close>

theorem POST_parsedSites_keeps_type_1_witness:
  "POST_parsedSites URL_api (JObj [(''sites'', JArr [
        JObj [(''type'', JNum 1), (''name'', JStr ''A''), (''api'', JStr ''http://x'')],
        JObj [(''type'', JNum 2), (''name'', JStr ''B''), (''api'', JStr ''http://y'')],
        JObj [(''type'', JNum 1), (''api'', JStr ''http://z'')]])])
     = Inr [\<lparr> site_name = JStr ''A'', site_key = JStr [], site_api = JStr ''http://x'',
               site_detail = JStr [] \<rparr>]
 \<and> filter (\<lambda>site. getprop site ''type'' = Inr (JNum 1) \<and> site_complete URL_api site)
       [JObj [(''type'', JNum 1), (''name'', JStr ''A''), (''api'', JStr ''http://x'')],
        JObj [(''type'', JNum 2), (''name'', JStr ''B''), (''api'', JStr ''http://y'')],
        JObj [(''type'', JNum 1), (''api'', JStr ''http://z'')]]
     = [JObj [(''type'', JNum 1), (''name'', JStr ''A''), (''api'', JStr ''http://x'')]]
 \<and> POST_mapSite URL_api
       (JObj [(''type'', JNum 1), (''name'', JStr ''A''), (''api'', JStr ''http://x'')])
     = Inr \<lparr> site_name = JStr ''A'', site_key = JStr [], site_api = JStr ''http://x'',
              site_detail = JStr [] \<rparr>"
proof -
  let ?xs = "[JObj [(''type'', JNum 1), (''name'', JStr ''A''), (''api'', JStr ''http://x'')],
              JObj [(''type'', JNum 2), (''name'', JStr ''B''), (''api'', JStr ''http://y'')],
              JObj [(''type'', JNum 1), (''api'', JStr ''http://z'')]]"
  have s: "getprop (JObj [(''sites'', JArr ?xs)]) ''sites'' = Inr (JArr ?xs)"
    by simp
  have p: "POST_parsedSites URL_api (JObj [(''sites'', JArr ?xs)])
             = Inr [\<lparr> site_name = JStr ''A'', site_key = JStr [], site_api = JStr ''http://x'',
                       site_detail = JStr [] \<rparr>]"
    by (simp add: POST_parsedSites_def POST_isVideoSource_def POST_mapSite_def POST_apiUrl_def
        or_else_def)
  have f: "filter (\<lambda>site. getprop site ''type'' = Inr (JNum 1) \<and> site_complete URL_api site) ?xs
             = [JObj [(''type'', JNum 1), (''name'', JStr ''A''), (''api'', JStr ''http://x'')]]"
    by (simp add: site_complete_def POST_mapSite_def POST_apiUrl_def or_else_def)
  from POST_parsedSites_keeps_type_1 [THEN conjunct1, rule_format, OF s p]
  show ?thesis using p f by simp
qed

text \<open>
  C5 as stated lets the parser keep every record of type 1. A record of type 1 with
  an empty name is dropped by the filter of line 82.
\<close>

theorem POST_parsedSites_type_1_counterexample:
  "POST_parsedSites URL_api (JObj [(''sites'', JArr [
        JObj [(''type'', JNum 1), (''name'', JStr []), (''api'', JStr ''http://x''),
              (''key'', JStr ''k'')]])])
     = Inr []"
  by (simp add: POST_parsedSites_def POST_isVideoSource_def POST_mapSite_def POST_apiUrl_def
      or_else_def)

section \<open>Live extraction\<close>

lemma POST_mapLive_Inr:
  "POST_mapLive live = Inr m \<Longrightarrow>
     m = \<lparr> live_name = or_else (read_field live ''name'') (JStr []),
           live_url = or_else (read_field live ''url'') (JStr []),
           live_epg = or_else (read_field live ''epg'') (JStr []),
           live_ua = or_else (read_field live ''ua'') (JStr []) \<rparr>"
  by (auto simp: POST_mapLive_def andThen_Inr_iff read_field_def)

lemma lives_map_filter:
  "Array_map POST_mapLive xs = Inr mapped \<Longrightarrow>
     filter (\<lambda>live. truthy (live_url live) \<and> truthy (live_name live)) mapped =
     map (\<lambda>live. \<lparr> live_name = read_field live ''name'', live_url = read_field live ''url'',
                    live_epg = (if truthy (read_field live ''epg'') then read_field live ''epg''
                                else JStr []),
                    live_ua = (if truthy (read_field live ''ua'') then read_field live ''ua''
                               else JStr []) \<rparr>)
       (filter (\<lambda>live. truthy (read_field live ''name'') \<and> truthy (read_field live ''url'')) xs)"
proof (induction xs arbitrary: mapped)
  case Nil
  then show ?case by simp
next
  case (Cons x xs)
  from Cons.prems obtain m ms where m: "POST_mapLive x = Inr m"
    and ms: "Array_map POST_mapLive xs = Inr ms" and mapped: "mapped = m # ms"
    by (auto simp: andThen_Inr_iff)
  show ?case
    unfolding mapped using Cons.IH [OF ms] POST_mapLive_Inr [OF m]
    by (auto simp: or_else_def)
qed

text \<open>The live parser returns on every document whose live records are not null.\<close>

lemma POST_parsedLives_returns:
  assumes "getprop doc ''lives'' = Inr (JArr xs)"
    and "\<And>live. live \<in> set xs \<Longrightarrow> live \<noteq> JNull \<and> live \<noteq> JUndefined"
  shows "\<exists>out. POST_parsedLives doc = Inr out"
proof -
  have "\<exists>m. POST_mapLive live = Inr m" if "live \<in> set xs" for live
    using assms(2) [OF that] by (simp add: POST_mapLive_def getprop_read_field)
  then obtain mapped where "Array_map POST_mapLive xs = Inr mapped"
    using Array_map_returns by blast
  with assms(1) show ?thesis
    by (simp add: POST_parsedLives_def or_else_def)
qed

text \<open>
  C6. For every subscription document, the parsed lives are the entries
  \<open>{ name, url, epg, ua }\<close> of exactly those live records whose name and url are
  non-empty, in order; name and url are the record's own values, unchanged (no
  unwrapping of a proxy URL), and epg and ua are the record's values or the empty
  string when absent. In particular \<open>{name:"L", url:"http://l"}\<close> yields
  \<open>{name:"L", url:"http://l", epg:"", ua:""}\<close>.
\<close>

theorem POST_parsedLives_entries:
  "(getprop doc ''lives'' = Inr (JArr xs) \<longrightarrow> POST_parsedLives doc = Inr out \<longrightarrow>
      out =
        map (\<lambda>live. \<lparr> live_name = read_field live ''name'', live_url = read_field live ''url'',
                       live_epg = (if truthy (read_field live ''epg'') then read_field live ''epg''
                                   else JStr []),
                       live_ua = (if truthy (read_field live ''ua'') then read_field live ''ua''
                                  else JStr []) \<rparr>)
          (filter (\<lambda>live. truthy (read_field live ''name'') \<and> truthy (read_field live ''url''))
             xs))
 \<and> POST_parsedLives (JObj [(''lives'', JArr [
        JObj [(''name'', JStr ''L''), (''url'', JStr ''http://l'')]])])
     = Inr [\<lparr> live_name = JStr ''L'', live_url = JStr ''http://l'', live_epg = JStr [],
               live_ua = JStr [] \<rparr>]"
proof (intro conjI impI)
  assume l: "getprop doc ''lives'' = Inr (JArr xs)" and p: "POST_parsedLives doc = Inr out"
  then obtain mapped where m: "Array_map POST_mapLive xs = Inr mapped"
    and out: "out = filter (\<lambda>live. truthy (live_url live) \<and> truthy (live_name live)) mapped"
    by (auto simp: POST_parsedLives_def andThen_Inr_iff or_else_def)
  show "out =
        map (\<lambda>live. \<lparr> live_name = read_field live ''name'', live_url = read_field live ''url'',
                       live_epg = (if truthy (read_field live ''epg'') then read_field live ''epg''
                                   else JStr []),
                       live_ua = (if truthy (read_field live ''ua'') then read_field live ''ua''
                                  else JStr []) \<rparr>)
          (filter (\<lambda>live. truthy (read_field live ''name'') \<and> truthy (read_field live ''url''))
             xs)"
    unfolding out by (rule lives_map_filter [OF m])
next
  show "POST_parsedLives (JObj [(''lives'', JArr [
        JObj [(''name'', JStr ''L''), (''url'', JStr ''http://l'')]])])
     = Inr [\<lparr> live_name = JStr ''L'', live_url = JStr ''http://l'', live_epg = JStr [],
               live_ua = JStr [] \<rparr>]"
    by (simp add: POST_parsedLives_def POST_mapLive_def or_else_def)
qed

text \<open>
  Three live records: the one of the claim, one with epg and ua whose url is a
  proxy-wrapped address, and one without a name. The second keeps its url as it is;
  the third is dropped.
\<close>

theorem POST_parsedLives_entries_witness:
  "POST_parsedLives (JObj [(''lives'', JArr [
        JObj [(''name'', JStr ''L''), (''url'', JStr ''http://l'')],
        JObj [(''name'', JStr ''P''), (''url'', JStr ''http://host/api/cms-proxy?api=http%3A%2F%2Fl''),
              (''epg'', JStr ''http://e''), (''ua'', JStr ''okhttp'')],
        JObj [(''url'', JStr ''http://n'')]])])
     = Inr [\<lparr> live_name = JStr ''L'', live_url = JStr ''http://l'', live_epg = JStr [],
               live_ua = JStr [] \<rparr>,
            \<lparr> live_name = JStr ''P'', live_url = JStr ''http://host/api/cms-proxy?api=http%3A%2F%2Fl'',
               live_epg = JStr ''http://e'', live_ua = JStr ''okhttp'' \<rparr>]"
proof -
  let ?xs = "[JObj [(''name'', JStr ''L''), (''url'', JStr ''http://l'')],
        JObj [(''name'', JStr ''P''), (''url'', JStr ''http://host/api/cms-proxy?api=http%3A%2F%2Fl''),
              (''epg'', JStr ''http://e''), (''ua'', JStr ''okhttp'')],
        JObj [(''url'', JStr ''http://n'')]]"
  have l: "getprop (JObj [(''lives'', JArr ?xs)]) ''lives'' = Inr (JArr ?xs)"
    by simp
  obtain out where p: "POST_parsedLives (JObj [(''lives'', JArr ?xs)]) = Inr out"
    using POST_parsedLives_returns [OF l] by auto
  from POST_parsedLives_entries [THEN conjunct1, rule_format, OF l p]
  show ?thesis unfolding p by (simp add: read_field_def)
qed

section \<open>The handler\<close>

lemma POST_Success:
  "POST U request_json fetched = Reply code (Success d) \<Longrightarrow>
     \<exists>doc. POST_parsedSites U doc = Inr (sites d) \<and> POST_parsedLives doc = Inr (lives d)
       \<and> code = 200 \<and> totalSites d = length (sites d) \<and> totalLives d = length (lives d)"
  by (auto simp: POST_def POST_try_def POST_reply_for_def andThen_Inr_iff
      split: sum.splits if_splits option.splits)

text \<open>
  C3. Whatever the request and the fetched document are, every site in a successful
  reply has a non-empty name and a non-empty api, and every live entry has a
  non-empty name and a non-empty url. The placeholder \<open>''\<close> that the mapping puts
  in for a missing field never reaches the reply in these fields: the record is
  dropped instead.
\<close>

theorem POST_entries_nonempty:
  assumes "POST U request_json fetched = Reply code (Success d)"
  shows "(\<forall>s \<in> set (sites d). truthy (site_name s) \<and> truthy (site_api s)
            \<and> site_name s \<noteq> JStr [] \<and> site_api s \<noteq> JStr [])
       \<and> (\<forall>l \<in> set (lives d). truthy (live_name l) \<and> truthy (live_url l)
            \<and> live_name l \<noteq> JStr [] \<and> live_url l \<noteq> JStr [])"
proof -
  from POST_Success [OF assms] obtain doc where
    s: "POST_parsedSites U doc = Inr (sites d)" and l: "POST_parsedLives doc = Inr (lives d)"
    by blast
  from s obtain mapped where
    e: "filter (\<lambda>site. truthy (site_api site) \<and> truthy (site_name site)) mapped = sites d"
    by (auto simp: POST_parsedSites_def andThen_Inr_iff)
  have "\<forall>s \<in> set (sites d). truthy (site_name s) \<and> truthy (site_api s)"
    unfolding e [symmetric] by simp
  moreover from l obtain mapped' where
    e': "filter (\<lambda>live. truthy (live_url live) \<and> truthy (live_name live)) mapped' = lives d"
    by (auto simp: POST_parsedLives_def andThen_Inr_iff)
  have "\<forall>l \<in> set (lives d). truthy (live_name l) \<and> truthy (live_url l)"
    unfolding e' [symmetric] by simp
  ultimately show ?thesis by auto
qed

text \<open>
  A request whose document has a site with the empty name next to a good one, and a
  live entry without a name next to a good one. The reply holds the two good entries
  only, and the theorem applies to it.
\<close>

theorem POST_entries_nonempty_witness:
  "POST URL_api (Inr (JObj [(''url'', JStr ''http://s'')]))
     (Inr \<lparr> ok = True, status = 200, statusText = ''OK'',
            content_type = Some ''application/json'',
            body_json = Some (JObj [
              (''sites'', JArr [
                 JObj [(''type'', JNum 1), (''name'', JStr []), (''api'', JStr ''http://x'')],
                 JObj [(''type'', JNum 1), (''name'', JStr ''A''), (''api'', JStr ''http://y'')]]),
              (''lives'', JArr [
                 JObj [(''url'', JStr ''http://m'')],
                 JObj [(''name'', JStr ''L''), (''url'', JStr ''http://l'')]])]) \<rparr>)
   = Reply 200 (Success
       \<lparr> sites = [\<lparr> site_name = JStr ''A'', site_key = JStr [], site_api = JStr ''http://y'',
                    site_detail = JStr [] \<rparr>],
         lives = [\<lparr> live_name = JStr ''L'', live_url = JStr ''http://l'', live_epg = JStr [],
                    live_ua = JStr [] \<rparr>],
         totalSites = 1, totalLives = 1 \<rparr>)
 \<and> truthy (JStr ''A'') \<and> truthy (JStr ''http://y'') \<and> truthy (JStr ''L'')
 \<and> truthy (JStr ''http://l'')"
proof -
  have r: "POST URL_api (Inr (JObj [(''url'', JStr ''http://s'')]))
     (Inr \<lparr> ok = True, status = 200, statusText = ''OK'',
            content_type = Some ''application/json'',
            body_json = Some (JObj [
              (''sites'', JArr [
                 JObj [(''type'', JNum 1), (''name'', JStr []), (''api'', JStr ''http://x'')],
                 JObj [(''type'', JNum 1), (''name'', JStr ''A''), (''api'', JStr ''http://y'')]]),
              (''lives'', JArr [
                 JObj [(''url'', JStr ''http://m'')],
                 JObj [(''name'', JStr ''L''), (''url'', JStr ''http://l'')]])]) \<rparr>)
   = Reply 200 (Success
       \<lparr> sites = [\<lparr> site_name = JStr ''A'', site_key = JStr [], site_api = JStr ''http://y'',
                    site_detail = JStr [] \<rparr>],
         lives = [\<lparr> live_name = JStr ''L'', live_url = JStr ''http://l'', live_epg = JStr [],
                    live_ua = JStr [] \<rparr>],
         totalSites = 1, totalLives = 1 \<rparr>)"
    by (simp add: POST_def POST_try_def POST_reply_for_def POST_parsedSites_def
        POST_isVideoSource_def POST_mapSite_def POST_apiUrl_def POST_parsedLives_def
        POST_mapLive_def or_else_def)
  from POST_entries_nonempty [OF r] show ?thesis using r by simp
qed

text \<open>
  C4, as amended. For every request whose body is a JSON value other than null: if
  its \<open>url\<close> is absent or falsy, the handler answers 400 with the message that asks
  for a subscription link, whatever the network would do. If its \<open>url\<close> is truthy, the
  fetch returns a successful response whose declared content type does not contain
  \<open>application/json\<close>, and the body is not valid JSON, the handler answers 400 with
  the message that the subscription content is not valid JSON: a reply different from
  the first and not a 500. Nothing is stated here for a response that declares
  \<open>application/json\<close>.
\<close>

theorem POST_input_errors:
  "(body \<noteq> JNull \<longrightarrow> body \<noteq> JUndefined \<longrightarrow> \<not> truthy (read_field body ''url'') \<longrightarrow>
      POST U (Inr body) fetched = Reply 400 (Error ProvideSubscriptionUrl))
 \<and> (body \<noteq> JNull \<longrightarrow> body \<noteq> JUndefined \<longrightarrow> truthy (read_field body ''url'') \<longrightarrow>
      ok r \<longrightarrow>
      \<not> String_includes (case content_type r of None \<Rightarrow> [] | Some c \<Rightarrow> c)
           ''application/json'' \<longrightarrow>
      body_json r = None \<longrightarrow>
      POST U (Inr body) (Inr r) = Reply 400 (Error NotValidJSON)
      \<and> POST U (Inr body) (Inr r) \<noteq> Reply 400 (Error ProvideSubscriptionUrl)
      \<and> (\<forall>m e. POST U (Inr body) (Inr r) \<noteq> Reply 500 (ErrorDetails m e)))"
  by (simp add: POST_def POST_try_def getprop_read_field)

text \<open>
  A request without \<open>url\<close>, and a request with a URL whose response is declared
  \<open>text/plain\<close> and is not JSON.
\<close>

theorem POST_input_errors_witness:
  "POST URL_api (Inr (JObj [])) (Inl FetchError) = Reply 400 (Error ProvideSubscriptionUrl)
 \<and> POST URL_api (Inr (JObj [(''url'', JStr ''http://s'')]))
     (Inr \<lparr> ok = True, status = 200, statusText = ''OK'', content_type = Some ''text/plain'',
            body_json = None \<rparr>)
   = Reply 400 (Error NotValidJSON)"
  using
    POST_input_errors [where body = "JObj []" and U = URL_api and fetched = "Inl FetchError"]
    POST_input_errors [where body = "JObj [(''url'', JStr ''http://s'')]" and U = URL_api
      and r = "\<lparr> ok = True, status = 200, statusText = ''OK'',
                  content_type = Some ''text/plain'', body_json = None \<rparr>"]
  by (simp add: read_field_def)

text \<open>
  C4 as stated fails at four requests. A request whose body is not JSON, or is
  \<open>null\<close>, supplies no URL, and line 13 throws: the reply is the 500 of the outer
  \<open>catch\<close> (lines 102-111), not the 400 that asks for a link. A response that is not a
  success is answered by line 29 before its body is looked at. A successful response
  that declares \<open>application/json\<close> is parsed by \<open>response.json()\<close> at line 41, which
  has no \<open>try\<close> of its own as the sibling branch of lines 44-51 has, and a body that is
  not JSON ends in the 500 of the outer \<open>catch\<close>.
\<close>

theorem POST_not_json_counterexample:
  "POST URL_api (Inl SyntaxError) (Inl FetchError)
   = Reply 500 (ErrorDetails ParseFailed SyntaxError)
 \<and> POST URL_api (Inr JNull) (Inl FetchError)
   = Reply 500 (ErrorDetails ParseFailed TypeError)
 \<and> POST URL_api (Inr (JObj [(''url'', JStr ''http://s'')]))
     (Inr \<lparr> ok = False, status = 404, statusText = ''Not Found'',
            content_type = Some ''text/html'', body_json = None \<rparr>)
   = Reply 400 (Error (FetchFailed 404 ''Not Found''))
 \<and> POST URL_api (Inr (JObj [(''url'', JStr ''http://s'')]))
     (Inr \<lparr> ok = True, status = 200, statusText = ''OK'',
            content_type = Some ''application/json'', body_json = None \<rparr>)
   = Reply 500 (ErrorDetails ParseFailed SyntaxError)"
  by (simp add: POST_def POST_try_def)

text \<open>
  The last of these in general: with a declared content type that contains
  \<open>application/json\<close>, a body that is not JSON is answered by the outer \<open>catch\<close>,
  where the other branch answers 400.
\<close>

lemma POST_declared_json_not_json:
  assumes "body \<noteq> JNull" and "body \<noteq> JUndefined" and "truthy (read_field body ''url'')"
    and "ok r" and "content_type r = Some c"
    and "String_includes c ''application/json''" and "body_json r = None"
  shows "POST U (Inr body) (Inr r) = Reply 500 (ErrorDetails ParseFailed SyntaxError)"
  using assms by (simp add: POST_def POST_try_def getprop_read_field)

section \<open>Unwrapping a proxy URL\<close>

lemma hex_value_hex_digit: "k < 16 \<Longrightarrow> hex_value (hex_digit k) = Some k"
  unfolding hex_value_def hex_digit_def
  by (auto simp add: less_Suc_eq numeral_eq_Suc)

lemma of_char_nibbles: "(of_char c :: nat) div 16 < 16" "(of_char c :: nat) mod 16 < 16"
proof -
  have "(of_char c :: nat) < 256" by simp
  then show "(of_char c :: nat) div 16 < 16" by arith
qed simp

lemma hex_octet_of_char:
  "hex_octet (hex_digit (of_char c div 16)) (hex_digit (of_char c mod 16)) = Some (of_char c)"
  by (simp add: hex_octet_def hex_value_hex_digit of_char_nibbles)

lemma percent_decode_plain: "c \<noteq> CHR ''%'' \<Longrightarrow> percent_decode (c # s) = c # percent_decode s"
  by (cases "(c # s)" rule: percent_decode.cases) auto

lemma uri_unreserved_plain:
  "uri_unreserved c \<Longrightarrow> printable c \<and> c \<notin> set ''%&=+#?''"
  unfolding uri_unreserved_def is_alpha_def is_digit_def printable_def by (auto simp: Let_def)

text \<open>The URL standard's percent-decoding undoes \<open>encodeURIComponent\<close>.\<close>

lemma percent_decode_encode: "percent_decode (encodeURIComponent u) = u"
proof (induction u)
  case Nil
  then show ?case by (simp add: encodeURIComponent_def)
next
  case (Cons c u)
  then have ih: "percent_decode (concat (map encode_byte u)) = u"
    by (simp add: encodeURIComponent_def)
  show ?case
  proof (cases "uri_unreserved c")
    case True
    then have "c \<noteq> CHR ''%''" using uri_unreserved_plain by auto
    with True ih show ?thesis
      by (simp add: encodeURIComponent_def encode_byte_def percent_decode_plain)
  next
    case False
    with ih show ?thesis
      by (simp add: encodeURIComponent_def encode_byte_def hex_octet_of_char Let_def)
  qed
qed

text \<open>What \<open>encodeURIComponent\<close> returns has no character that structures a query.\<close>

lemma encodeURIComponent_chars:
  assumes "c \<in> set (encodeURIComponent u)"
  shows "printable c \<and> c \<notin> set ''&=+#?''"
proof -
  have h: "k < 16 \<Longrightarrow> printable (hex_digit k) \<and> hex_digit k \<notin> set ''&=+#?''" for k
    unfolding hex_digit_def printable_def by (auto simp add: less_Suc_eq numeral_eq_Suc)
  from assms obtain x where "c \<in> set (encode_byte x)"
    by (auto simp: encodeURIComponent_def)
  then show ?thesis
    using h [OF of_char_nibbles(1) [of x]] h [OF of_char_nibbles(2) [of x]]
      uri_unreserved_plain [of x]
    by (auto simp: encode_byte_def Let_def printable_def split: if_splits)
qed

lemma split_on_absent: "d \<notin> set s \<Longrightarrow> split_on d s = [s]"
  by (induction s) auto

lemma takeWhile_absent: "d \<notin> set s \<Longrightarrow> takeWhile (\<lambda>c. c \<noteq> d) s = s"
  by (induction s) auto

lemma decodeURIComponent_plain: "CHR ''%'' \<notin> set s \<Longrightarrow> decodeURIComponent s = Inr s"
  unfolding decodeURIComponent_def by (induction s) auto

lemma utf8_lossy_ascii: "list_all (\<lambda>b. b < 128) bs \<Longrightarrow> utf8_lossy [] 0 128 191 bs = bs"
  by (induction bs) (auto simp: utf8_lead_def)

lemma utf8_decode_ascii: "list_all (\<lambda>c. (of_char c :: nat) < 128) s \<Longrightarrow> utf8_decode s = s"
  by (simp add: utf8_decode_def utf8_lossy_ascii list_all_iff map_idI)

lemma URL_api_JStr: "URL_api (JStr s) = URL_api_string s"
  by (simp add: URL_api_def)

lemma URL_api_wrapped:
  assumes "list_all (\<lambda>c. (of_char c :: nat) < 128) u"
  shows "URL_api_string (''http://host/api/cms-proxy?api='' @ encodeURIComponent u) = Param u"
proof -
  let ?e = "encodeURIComponent u"
  have p: "list_all printable ?e" and a: "CHR ''&'' \<notin> set ?e" and h: "CHR ''#'' \<notin> set ?e"
    and pl: "CHR ''+'' \<notin> set ?e"
    using encodeURIComponent_chars [of _ u] by (auto simp: list_all_iff)
  have m: "map (\<lambda>c. if c = CHR ''+'' then CHR '' '' else c) ?e = ?e"
    using pl by (intro map_idI) auto
  have t: "takeWhile (\<lambda>c. c \<noteq> CHR ''#'') ?e = ?e"
    using h by (rule takeWhile_absent)
  have host: "host_in_fragment ''host''"
    by (simp add: host_in_fragment_def host_char_def is_alpha_def is_digit_def numeric_like_def
        ascii_lower_def)
  show ?thesis
    using assms p
    by (simp add: URL_api_string_def printable_def after_scheme_def ascii_lower_def
        ends_authority_def host_and_port_def host port_in_fragment_def query_of_def
        form_pairs_def form_pair_def form_component_def split_on_absent [OF a] t m
        percent_decode_encode utf8_decode_ascii)
qed

text \<open>
  C2. A site record whose raw api is \<open>"http://host/api/cms-proxy?api="\<close> followed by
  \<open>encodeURIComponent(u)\<close> is emitted with the effective api \<open>u\<close>, for every non-empty
  ASCII string \<open>u\<close> without a percent sign; the URL class is the standard's. For
  \<open>u = "http://real.site/api"\<close> and a record of type 1 the parsed site has exactly the
  api \<open>"http://real.site/api"\<close>.
\<close>

theorem proxy_wrapper_roundtrip:
  "(getprop site ''api'' = Inr (JStr (''http://host/api/cms-proxy?api='' @ encodeURIComponent u))
      \<longrightarrow> u \<noteq> [] \<longrightarrow> list_all (\<lambda>c. (of_char c :: nat) < 128) u \<longrightarrow> CHR ''%'' \<notin> set u \<longrightarrow>
      POST_apiUrl URL_api site = Inr (JStr u)
      \<and> (\<exists>p. POST_mapSite URL_api site = Inr p \<and> site_api p = JStr u))
 \<and> POST_parsedSites URL_api (JObj [(''sites'', JArr [
        JObj [(''key'', JStr ''k''), (''name'', JStr ''A''), (''type'', JNum 1),
              (''api'', JStr (''http://host/api/cms-proxy?api=''
                             @ encodeURIComponent ''http://real.site/api''))]])])
     = Inr [\<lparr> site_name = JStr ''A'', site_key = JStr ''k'',
               site_api = JStr ''http://real.site/api'', site_detail = JStr [] \<rparr>]"
proof -
  have general: "POST_apiUrl URL_api site = Inr (JStr u)"
    if "getprop site ''api'' = Inr (JStr (''http://host/api/cms-proxy?api='' @ encodeURIComponent u))"
      and "u \<noteq> []" and "list_all (\<lambda>c. (of_char c :: nat) < 128) u" and "CHR ''%'' \<notin> set u"
    for site u
    using that URL_api_wrapped [OF that(3), simplified]
    by (simp add: POST_apiUrl_def or_else_def POST_try_unwrap_def decodeURIComponent_plain
        URL_api_JStr)
  have emitted: "\<exists>p. POST_mapSite URL_api site = Inr p \<and> site_api p = JStr u"
    if "getprop site ''api'' = Inr (JStr (''http://host/api/cms-proxy?api='' @ encodeURIComponent u))"
      and "u \<noteq> []" and "list_all (\<lambda>c. (of_char c :: nat) < 128) u" and "CHR ''%'' \<notin> set u"
    for site u
  proof -
    from that(1) have "site \<noteq> JNull" "site \<noteq> JUndefined" by auto
    then show ?thesis
      using general [OF that] by (simp add: POST_mapSite_def getprop_read_field)
  qed
  let ?site = "JObj [(''key'', JStr ''k''), (''name'', JStr ''A''), (''type'', JNum 1),
              (''api'', JStr (''http://host/api/cms-proxy?api=''
                             @ encodeURIComponent ''http://real.site/api''))]"
  have "POST_apiUrl URL_api ?site = Inr (JStr ''http://real.site/api'')"
    by (rule general) simp_all
  then have "POST_parsedSites URL_api (JObj [(''sites'', JArr [?site])])
     = Inr [\<lparr> site_name = JStr ''A'', site_key = JStr ''k'',
               site_api = JStr ''http://real.site/api'', site_detail = JStr [] \<rparr>]"
    by (simp add: POST_parsedSites_def POST_isVideoSource_def POST_mapSite_def or_else_def)
  with general emitted show ?thesis by blast
qed

text \<open>
  The record of the claim: its api field is the wrapper around
  \<open>http%3A%2F%2Freal.site%2Fapi\<close>, and the effective api is the original address.
\<close>

theorem proxy_wrapper_roundtrip_witness:
  "encodeURIComponent ''http://real.site/api'' = ''http%3A%2F%2Freal.site%2Fapi''
 \<and> POST_apiUrl URL_api
       (JObj [(''type'', JNum 1),
              (''api'', JStr ''http://host/api/cms-proxy?api=http%3A%2F%2Freal.site%2Fapi'')])
     = Inr (JStr ''http://real.site/api'')"
proof -
  have e: "encodeURIComponent ''http://real.site/api'' = ''http%3A%2F%2Freal.site%2Fapi''"
    by (simp add: encodeURIComponent_def encode_byte_def uri_unreserved_def is_alpha_def
        is_digit_def hex_digit_def)
  have a: "getprop (JObj [(''type'', JNum 1),
              (''api'', JStr ''http://host/api/cms-proxy?api=http%3A%2F%2Freal.site%2Fapi'')])
             ''api''
           = Inr (JStr (''http://host/api/cms-proxy?api='' @ encodeURIComponent ''http://real.site/api''))"
    unfolding e by simp
  have n: "''http://real.site/api'' \<noteq> []" by simp
  have l: "list_all (\<lambda>c. (of_char c :: nat) < 128) ''http://real.site/api''" by simp
  have q: "CHR ''%'' \<notin> set ''http://real.site/api''" by simp
  from proxy_wrapper_roundtrip [THEN conjunct1, rule_format, OF a n l q]
  show ?thesis using e by simp
qed

end
